theory Spec2Isabelle
  imports Main "HOL-Library.Multiset"
begin

section \<open>Path tree merger (devtools-tabs component, \<open>injectorTreeReloaded\<close>)\<close>

subsection \<open>Data\<close>

text \<open>
  The \<open>InjectorNode\<close> interface of the component: \<open>type\<close>, \<open>owner\<close>, \<open>node\<close> and \<open>id\<close>.
  The owner of a serialized record is a display string, or \<open>undefined\<close> (\<open>None\<close>).
  The merger reads the attached \<open>node\<close> only through \<open>node.resolutionPath.length\<close> and
  \<open>node.resolutionPath[k].id\<close>, so the field holds the ids of the records of
  \<open>node.resolutionPath\<close>, in the order of that array (element itself first).
  Every node of the forest has its own array of its own record objects (the serializer
  builds them afresh for each node), so records are values here. The merger sets \<open>node\<close>
  on \<open>Element\<close> records only; on the others the field is never read
  (lemma \<open>equalNode_node_irrelevant\<close>).
\<close>

record InjectorNode =
  typeI :: string
  ownerI :: "string option"
  nodeI :: "string list"
  idI :: string

text \<open>A node of the component forest received by the merger: its optional
  \<open>resolutionPath\<close> and its children.\<close>

datatype DevToolsNode =
  DevToolsNode (resolutionPath: "InjectorNode list option") (childrenD: "DevToolsNode list")

text \<open>A node of the merged tree: \<open>{injector, children}\<close>.\<close>

datatype MergedNode =
  MergedNode (injector: InjectorNode) (childrenM: "MergedNode list")

subsection \<open>\<open>equalNode\<close>\<close>

text \<open>
  \<open>aInjectors.every(({id}, idx) => bInjectors[idx].id === id)\<close>: the callback sees each
  element with its index.
\<close>

definition everyIdx :: "('a \<Rightarrow> nat \<Rightarrow> bool) \<Rightarrow> 'a list \<Rightarrow> bool" where
  "everyIdx f xs = list_all (\<lambda>(idx, x). f x idx) (enumerate 0 xs)"

text \<open>
  The first argument is the component's flag \<open>collapseSiblingElementInjector\<close>.
  \<open>const [_e, ...rest] = arr\<close> is \<open>tl\<close> (the rest of an empty array is empty).
\<close>

definition equalNode :: "bool \<Rightarrow> InjectorNode \<Rightarrow> InjectorNode \<Rightarrow> bool" where
  "equalNode collapse a b =
     (if collapse \<and> typeI a = ''Element'' \<and> typeI b = ''Element'' \<and>
         ownerI a = ownerI b \<and> length (nodeI a) = length (nodeI b) \<and>
         idI a \<noteq> idI b
      then (let aInjectors = tl (nodeI a); bInjectors = tl (nodeI b)
            in everyIdx (\<lambda>i idx. bInjectors ! idx = i) aInjectors)
      else idI a = idI b)"

subsection \<open>\<open>pathExists\<close>\<close>

text \<open>
  The \<open>while\<close> loop of \<open>pathExists\<close>, started at index \<open>i\<close>; the result is the index at
  which the loop stops.
\<close>

function pathExistsLoop :: "bool \<Rightarrow> MergedNode list \<Rightarrow> InjectorNode \<Rightarrow> nat \<Rightarrow> nat" where
  "pathExistsLoop c path v i =
     (if i < length path \<and> \<not> equalNode c (injector (path ! i)) v
      then pathExistsLoop c path v (i + 1) else i)"
  by pat_completeness auto
termination
  by (relation "measure (\<lambda>(c, path, v, i). length path - i)") auto

declare pathExistsLoop.simps [simp del]

text \<open>
  \<open>pathExists\<close> returns \<open>false\<close> (\<open>None\<close>) or the node \<open>path[i]\<close> itself; the caller then
  mutates that node's \<open>children\<close> in place, so the model returns the index of the node.
\<close>

definition pathExists :: "bool \<Rightarrow> MergedNode list \<Rightarrow> InjectorNode \<Rightarrow> nat option" where
  "pathExists c path v =
     (let i = pathExistsLoop c path v 0 in if i = length path then None else Some i)"

subsection \<open>The insertion loops\<close>

text \<open>\<open>if (injector['type'] === 'Element') injector.node = node\<close>.\<close>

definition attachNode :: "string list \<Rightarrow> InjectorNode \<Rightarrow> InjectorNode" where
  "attachNode node v = (if typeI v = ''Element'' then v\<lparr>nodeI := node\<rparr> else v)"

text \<open>
  The inner \<open>for (const injector of path)\<close> loop, for one entry \<open>{node, path}\<close>:
  \<open>level\<close> is \<open>currentLevel\<close>. The loop mutates the nested arrays in place; the model
  returns the updated level.
\<close>

fun insertPath :: "bool \<Rightarrow> string list \<Rightarrow> InjectorNode list \<Rightarrow> MergedNode list \<Rightarrow> MergedNode list" where
  "insertPath c node [] level = level"
| "insertPath c node (x # rest) level =
     (let v = attachNode node x in
      case pathExists c level v of
        Some i \<Rightarrow>
          level[i := MergedNode (injector (level ! i))
                       (insertPath c node rest (childrenM (level ! i)))]
      | None \<Rightarrow> level @ [MergedNode v (insertPath c node rest [])])"

text \<open>The outer loop over \<open>injectorPaths\<close>, starting from \<open>injectorTree = []\<close>.\<close>

definition mergeInjectorPaths :: "bool \<Rightarrow> (string list \<times> InjectorNode list) list \<Rightarrow> MergedNode list" where
  "mergeInjectorPaths c injectorPaths =
     foldl (\<lambda>tree (node, path). insertPath c node path tree) [] injectorPaths"

text \<open>
  The entry \<open>{node, path}\<close> pushed by \<open>grabInjectorPaths\<close> for a node with resolution
  path \<open>rp\<close>: the node (here the ids of its resolution path, as in \<open>nodeI\<close>), and
  \<open>rp.slice().reverse()\<close>. The walk pushes a node before its children.
\<close>

definition pathEntry :: "InjectorNode list \<Rightarrow> string list \<times> InjectorNode list" where
  "pathEntry rp = (map idI rp, rev rp)"

fun grabInjectorPaths :: "DevToolsNode \<Rightarrow> (string list \<times> InjectorNode list) list" where
  "grabInjectorPaths (DevToolsNode rp cs) =
     (case rp of Some p \<Rightarrow> [pathEntry p] | None \<Rightarrow> []) @ concat (map grabInjectorPaths cs)"

text \<open>
  \<open>injectorTreeReloaded\<close>: only \<open>forestWithInjectorPaths[0]\<close> is walked; on an empty
  forest the walk reads a property of \<open>undefined\<close> and throws (\<open>None\<close>).
\<close>

definition injectorTreeReloaded :: "bool \<Rightarrow> DevToolsNode list \<Rightarrow> MergedNode list option" where
  "injectorTreeReloaded c forest =
     (case forest of [] \<Rightarrow> None
      | root # _ \<Rightarrow> Some (mergeInjectorPaths c (grabInjectorPaths root)))"

text \<open>Merging a list of resolution paths, each as its node carries it.\<close>

definition mergePaths :: "bool \<Rightarrow> InjectorNode list list \<Rightarrow> MergedNode list" where
  "mergePaths c ps = mergeInjectorPaths c (map pathEntry ps)"

subsection \<open>Shapes of merged trees\<close>

text \<open>The linear chain of a path: one child per level, records in the order of the path.\<close>

fun chainOf :: "InjectorNode list \<Rightarrow> MergedNode list" where
  "chainOf [] = []"
| "chainOf (x # xs) = [MergedNode x (chainOf xs)]"

text \<open>No two nodes of a level are equal under the rule, in either argument order.\<close>

fun noDupSiblings :: "bool \<Rightarrow> MergedNode list \<Rightarrow> bool" where
  "noDupSiblings c [] = True"
| "noDupSiblings c (n # ns) =
     (list_all (\<lambda>m. \<not> equalNode c (injector n) (injector m) \<and>
                     \<not> equalNode c (injector m) (injector n)) ns \<and>
      noDupSiblings c ns)"

text \<open>The same at every level of the tree below a node, and of a whole level.\<close>

fun wellMergedNode :: "bool \<Rightarrow> MergedNode \<Rightarrow> bool" where
  "wellMergedNode c (MergedNode v cs) = (noDupSiblings c cs \<and> list_all (wellMergedNode c) cs)"

definition wellMerged :: "bool \<Rightarrow> MergedNode list \<Rightarrow> bool" where
  "wellMerged c level = (noDupSiblings c level \<and> list_all (wellMergedNode c) level)"

text \<open>The id sequences of all root-to-node paths of a tree.\<close>

fun idPathsNode :: "MergedNode \<Rightarrow> string list list" where
  "idPathsNode (MergedNode v cs) =
     [idI v] # map ((#) (idI v)) (concat (map idPathsNode cs))"

definition idPaths :: "MergedNode list \<Rightarrow> string list list" where
  "idPaths level = concat (map idPathsNode level)"




section \<open>Component forest lookup (\<open>queryDirectiveForest\<close>)\<close>

text \<open>Identities of live objects (DOM nodes, classes, instances, injectors).\<close>

type_synonym ref = nat

text \<open>
  \<open>IndexedNode\<close>: a node of the indexed component forest. A component is
  \<open>(name, isElement, instance)\<close>, a directive \<open>(name, instance)\<close>.
\<close>

datatype IndexedNode =
  IndexedNode (positionN: "int list") (elementN: string)
    (componentN: "(string \<times> bool \<times> ref) option") (directivesN: "(string \<times> ref) list")
    (childrenN: "IndexedNode list") (nativeElementN: "ref option")

text \<open>
  \<open>forest[i]\<close> on an array: \<open>undefined\<close> (\<open>None\<close>) outside \<open>0 .. length - 1\<close>. The
  indices of a position are integers here; any other number would read \<open>undefined\<close> too.
\<close>

definition arrayIndex :: "'a list \<Rightarrow> int \<Rightarrow> 'a option" where
  "arrayIndex xs i = (if 0 \<le> i \<and> i < int (length xs) then Some (xs ! nat i) else None)"

text \<open>The \<open>for (const i of position)\<close> loop; \<open>node\<close> is the loop's variable.\<close>

fun queryLoop :: "int list \<Rightarrow> IndexedNode list \<Rightarrow> IndexedNode option \<Rightarrow> IndexedNode option" where
  "queryLoop [] forest node = node"
| "queryLoop (i # rest) forest node =
     (case arrayIndex forest i of
        None \<Rightarrow> None
      | Some n \<Rightarrow> queryLoop rest (childrenN n) (Some n))"

definition queryDirectiveForest :: "int list \<Rightarrow> IndexedNode list \<Rightarrow> IndexedNode option" where
  "queryDirectiveForest position forest =
     (if length position = 0 then None else queryLoop position forest None)"

text \<open>Every index along the position names an existing node of the forest.\<close>

fun namesNode :: "int list \<Rightarrow> IndexedNode list \<Rightarrow> bool" where
  "namesNode [] forest = True"
| "namesNode (i # rest) forest =
     (0 \<le> i \<and> i < int (length forest) \<and> namesNode rest (childrenN (forest ! nat i)))"

section \<open>Resolution path serializer (\<open>prepareForestForSerialization\<close>)\<close>

subsection \<open>Data\<close>

text \<open>
  A record returned by \<open>getInjectorResolutionPath\<close>: \<open>{type, owner, instance}\<close>. The owner
  is a live object (a DOM node for \<open>Element\<close>, a class otherwise); \<open>Element\<close> records
  carry no \<open>instance\<close>.
\<close>

record RawInjector =
  typeR :: string
  ownerR :: ref
  instanceR :: "ref option"

text \<open>The same record after the loop body has run: \<open>owner\<close> is a label, \<open>id\<close> is set.\<close>

record SerializedInjector =
  typeS :: string
  ownerS :: "string option"
  instanceS :: "ref option"
  idS :: string

datatype SerializableNode =
  SerializableNode (positionS: "int list") (elementS: string)
    (componentS: "(string \<times> bool \<times> nat option) option")
    (directivesS: "(string \<times> nat option) list")
    (childrenS: "SerializableNode list")
    (resolutionPathS: "SerializedInjector list option")

text \<open>
  The functions of the framework and the platform that the serializer calls:
  \<open>window.ng.getInjectorResolutionPath\<close> (\<open>null\<close> when the element has no context),
  \<open>window.ng.getDirectives\<close>, \<open>window.ng.getComponent\<close>, \<open>owner instanceof Comment\<close>,
  \<open>d.constructor.name\<close>, \<open>owner.name\<close>, the hooks' \<open>getDirectiveId\<close>, and
  \<open>crypto.randomUUID\<close> as the sequence of the values it returns.
\<close>

record Framework =
  getInjectorResolutionPath :: "ref option \<Rightarrow> RawInjector list option"
  getDirectives :: "ref \<Rightarrow> ref list"
  getComponent :: "ref \<Rightarrow> ref option"
  isComment :: "ref \<Rightarrow> bool"
  constructorName :: "ref \<Rightarrow> string"
  ownerName :: "ref \<Rightarrow> string option"
  getDirectiveId :: "ref \<Rightarrow> nat option"
  randomUUID :: "nat \<Rightarrow> string"

text \<open>
  The module's two maps, \<open>injectorMap\<close> and \<open>containerInjectorIdToInstance\<close>, and the
  number of values drawn from \<open>crypto.randomUUID\<close> so far.
\<close>

record SerializerState =
  injectorMap :: "ref \<rightharpoonup> string"
  containerInjectorIdToInstance :: "string \<rightharpoonup> ref option"
  uuidsDrawn :: nat

subsection \<open>The loop body\<close>

text \<open>\<open>Array.prototype.join\<close> on strings.\<close>

fun joinWith :: "string \<Rightarrow> string list \<Rightarrow> string" where
  "joinWith sep [] = []"
| "joinWith sep [x] = x"
| "joinWith sep (x # y # ys) = x @ sep @ joinWith sep (y # ys)"

text \<open>
  The directives of an \<open>Element\<close> owner: \<open>getDirectives(owner)\<close>, preceded by the component
  and filtered for truthiness unless the owner is a comment node; then their constructor names.
\<close>

definition directiveNames :: "Framework \<Rightarrow> ref \<Rightarrow> string list" where
  "directiveNames ng own =
     (let directives = map Some (getDirectives ng own);
          directives = (if \<not> isComment ng own
                        then filter (\<lambda>d. d \<noteq> None) (getComponent ng own # directives)
                        else directives)
      in map (\<lambda>d. constructorName ng (the d)) directives)"

text \<open>
  \<open>const [firstDirective, ...restOfDirectives] = names\<close> and the conditional: with no
  names at all \<open>firstDirective\<close> is \<open>undefined\<close>, and so is the owner.
\<close>

definition ownerLabel :: "string list \<Rightarrow> string option" where
  "ownerLabel names =
     (case names of
        [] \<Rightarrow> None
      | firstDirective # restOfDirectives \<Rightarrow>
          (if length restOfDirectives = 0 then Some firstDirective
           else Some (firstDirective @ ''['' @ joinWith '', '' restOfDirectives @ '']'')))"

text \<open>The lookup in \<open>injectorMap\<close>, drawing a fresh UUID on a miss.\<close>

definition assignId :: "Framework \<Rightarrow> SerializerState \<Rightarrow> ref \<Rightarrow> SerializerState \<times> string" where
  "assignId ng st own =
     (case injectorMap st own of
        Some i \<Rightarrow> (st, i)
      | None \<Rightarrow>
          (let uuid = randomUUID ng (uuidsDrawn st)
           in (st\<lparr>injectorMap := (injectorMap st)(own \<mapsto> uuid),
                   uuidsDrawn := Suc (uuidsDrawn st)\<rparr>, uuid)))"

text \<open>One iteration of \<open>for (const injector of resolutionPath)\<close>.\<close>

definition serializeInjector ::
  "Framework \<Rightarrow> SerializerState \<Rightarrow> RawInjector \<Rightarrow> SerializerState \<times> SerializedInjector" where
  "serializeInjector ng st r =
     (let (st1, i) = assignId ng st (ownerR r) in
      if typeR r = ''Element''
      then (st1, \<lparr>typeS = typeR r, ownerS = ownerLabel (directiveNames ng (ownerR r)),
                  instanceS = instanceR r, idS = i\<rparr>)
      else (st1\<lparr>containerInjectorIdToInstance :=
                   (containerInjectorIdToInstance st1)(i \<mapsto> instanceR r)\<rparr>,
            \<lparr>typeS = typeR r, ownerS = ownerName ng (ownerR r),
             instanceS = None, idS = i\<rparr>))"

fun serializePath ::
  "Framework \<Rightarrow> SerializerState \<Rightarrow> RawInjector list \<Rightarrow> SerializerState \<times> SerializedInjector list" where
  "serializePath ng st [] = (st, [])"
| "serializePath ng st (r # rs) =
     (let (st1, out) = serializeInjector ng st r;
          (st2, outs) = serializePath ng st1 rs
      in (st2, out # outs))"

subsection \<open>The forest\<close>

text \<open>
  \<open>prepareForestForSerialization\<close>: the children are serialized while the node's object
  literal is built, before the node's own resolution path. A \<open>null\<close> resolution path makes
  the \<open>for ... of\<close> throw (\<open>None\<close>).
\<close>

fun prepareNode ::
  "Framework \<Rightarrow> bool \<Rightarrow> SerializerState \<Rightarrow> IndexedNode \<Rightarrow> (SerializerState \<times> SerializableNode) option"
and prepareForestForSerialization ::
  "Framework \<Rightarrow> bool \<Rightarrow> SerializerState \<Rightarrow> IndexedNode list \<Rightarrow> (SerializerState \<times> SerializableNode list) option"
where
  "prepareNode ng includeResolutionPath st (IndexedNode pos el cmpt dirs cs native) =
     (case prepareForestForSerialization ng includeResolutionPath st cs of
        None \<Rightarrow> None
      | Some (st1, kids) \<Rightarrow>
          (let serializedComp =
                 map_option (\<lambda>(name, isElement, inst). (name, isElement, getDirectiveId ng inst)) cmpt;
               serializedDirs = map (\<lambda>(name, inst). (name, getDirectiveId ng inst)) dirs
           in if includeResolutionPath
              then (case getInjectorResolutionPath ng native of
                      None \<Rightarrow> None
                    | Some path \<Rightarrow>
                        (let (st2, outs) = serializePath ng st1 path
                         in Some (st2, SerializableNode pos el serializedComp serializedDirs
                                         kids (Some outs))))
              else Some (st1, SerializableNode pos el serializedComp serializedDirs
                                kids None)))"
| "prepareForestForSerialization ng includeResolutionPath st [] = Some (st, [])"
| "prepareForestForSerialization ng includeResolutionPath st (node # roots) =
     (case prepareNode ng includeResolutionPath st node of
        None \<Rightarrow> None
      | Some (st1, out) \<Rightarrow>
          (case prepareForestForSerialization ng includeResolutionPath st1 roots of
             None \<Rightarrow> None
           | Some (st2, outs) \<Rightarrow> Some (st2, out # outs)))"

text \<open>
  \<open>getLatestInjectorGraphCallback\<close>: clear \<open>injectorMap\<close>, then serialize the indexed
  forest with resolution paths; the result is what the callback emits.
\<close>

definition getLatestInjectorGraphCallback ::
  "Framework \<Rightarrow> SerializerState \<Rightarrow> IndexedNode list \<Rightarrow> (SerializerState \<times> SerializableNode list) option" where
  "getLatestInjectorGraphCallback ng st forest =
     prepareForestForSerialization ng True (st\<lparr>injectorMap := Map.empty\<rparr>) forest"

subsection \<open>The records of a pass, in the order the pass visits them\<close>

fun rawRecordsNode :: "Framework \<Rightarrow> IndexedNode \<Rightarrow> RawInjector list" where
  "rawRecordsNode ng (IndexedNode pos el cmpt dirs cs native) =
     concat (map (rawRecordsNode ng) cs) @
     (case getInjectorResolutionPath ng native of None \<Rightarrow> [] | Some p \<Rightarrow> p)"

definition rawRecords :: "Framework \<Rightarrow> IndexedNode list \<Rightarrow> RawInjector list" where
  "rawRecords ng forest = concat (map (rawRecordsNode ng) forest)"

fun serializedRecordsNode :: "SerializableNode \<Rightarrow> SerializedInjector list" where
  "serializedRecordsNode (SerializableNode pos el cmpt dirs cs rp) =
     concat (map serializedRecordsNode cs) @ (case rp of None \<Rightarrow> [] | Some p \<Rightarrow> p)"

definition serializedRecords :: "SerializableNode list \<Rightarrow> SerializedInjector list" where
  "serializedRecords forest = concat (map serializedRecordsNode forest)"

subsection \<open>Specification-side notions for the serializer\<close>

text \<open>
  The owner set of an \<open>Element\<close> record, in the spec's words: the component hosted at the
  DOM position, if any, then the directives; a comment node hosts directives only.
\<close>

definition specOwnerSet :: "Framework \<Rightarrow> ref \<Rightarrow> ref list" where
  "specOwnerSet ng own =
     (if isComment ng own then []
      else (case getComponent ng own of None \<Rightarrow> [] | Some c \<Rightarrow> [c])) @ getDirectives ng own"

text \<open>A comma-separated list of names, in the spec's words.\<close>

fun specCommaSeparated :: "string list \<Rightarrow> string" where
  "specCommaSeparated [] = []"
| "specCommaSeparated (x # xs) = x @ concat (map (\<lambda>y. '', '' @ y) xs)"

text \<open>
  The invariant of \<open>injectorMap\<close> during a pass: every id in the map is one of the UUIDs
  drawn so far, and no id is bound to two owners.
\<close>

definition idsInvariant :: "Framework \<Rightarrow> SerializerState \<Rightarrow> bool" where
  "idsInvariant ng st \<longleftrightarrow>
     (\<forall>own i. injectorMap st own = Some i \<longrightarrow> (\<exists>n < uuidsDrawn st. i = randomUUID ng n)) \<and>
     (\<forall>o1 o2 i. injectorMap st o1 = Some i \<longrightarrow> injectorMap st o2 = Some i \<longrightarrow> o1 = o2)"

section \<open>Example inputs\<close>

text \<open>
  Two sibling elements hosting the same component, one of them with a child element, below
  one module injector. Resolution paths are listed element first, as the serializer emits them.
\<close>

definition itemA :: InjectorNode where
  "itemA = \<lparr>typeI = ''Element'', ownerI = Some ''ItemComponent'', nodeI = [], idI = ''a''\<rparr>"

definition itemB :: InjectorNode where
  "itemB = \<lparr>typeI = ''Element'', ownerI = Some ''ItemComponent'', nodeI = [], idI = ''b''\<rparr>"

definition childX :: InjectorNode where
  "childX = \<lparr>typeI = ''Element'', ownerI = Some ''ChildComponent'', nodeI = [], idI = ''x''\<rparr>"

definition appModule :: InjectorNode where
  "appModule = \<lparr>typeI = ''Module'', ownerI = Some ''AppModule'', nodeI = [], idI = ''m''\<rparr>"

definition platformInj :: InjectorNode where
  "platformInj = \<lparr>typeI = ''Platform'', ownerI = Some ''R3Injector'', nodeI = [], idI = ''p''\<rparr>"

definition pathA :: "InjectorNode list" where "pathA = [itemA, appModule]"
definition pathX :: "InjectorNode list" where "pathX = [childX, itemA, appModule]"
definition pathB :: "InjectorNode list" where "pathB = [itemB, appModule]"


definition pageChildLast :: DevToolsNode where
  "pageChildLast =
     DevToolsNode (Some [appModule])
       [DevToolsNode (Some pathB) [],
        DevToolsNode (Some pathA) [DevToolsNode (Some pathX) []]]"

text \<open>
  A page with one component element (DOM node 10, component instance 22, directive
  instances 20 and 21) and a comment node (DOM node 11) inside it, in a view of a lazily
  loaded module (class 6, injector instance 4). The root environment injector (instance 1)
  and the platform injector (instance 2) are both instances of the class \<open>R3Injector\<close>
  (object 7), so \<open>getInjectorResolutionPath\<close> gives both records the owner
  \<open>injector.constructor = R3Injector\<close>; the null injector is instance 3 of class 8.
\<close>

definition exampleContainers :: "RawInjector list" where
  "exampleContainers =
     [\<lparr>typeR = ''Module'', ownerR = 6, instanceR = Some 4\<rparr>,
      \<lparr>typeR = ''Injector'', ownerR = 7, instanceR = Some 1\<rparr>,
      \<lparr>typeR = ''Platform'', ownerR = 7, instanceR = Some 2\<rparr>,
      \<lparr>typeR = ''NullInjector'', ownerR = 8, instanceR = Some 3\<rparr>]"

definition exampleNg :: Framework where
  "exampleNg =
     \<lparr>getInjectorResolutionPath =
        (\<lambda>e. if e = Some 10
              then Some (\<lparr>typeR = ''Element'', ownerR = 10, instanceR = None\<rparr> # exampleContainers)
              else if e = Some 11
              then Some (\<lparr>typeR = ''Element'', ownerR = 11, instanceR = None\<rparr> #
                         \<lparr>typeR = ''Element'', ownerR = 10, instanceR = None\<rparr> # exampleContainers)
              else None),
      getDirectives = (\<lambda>own. if own = 10 then [20, 21] else []),
      getComponent = (\<lambda>own. if own = 10 then Some 22 else None),
      isComment = (\<lambda>own. own = 11),
      constructorName =
        (\<lambda>d. if d = 22 then ''TodoComponent''
              else if d = 20 then ''TooltipDirective'' else ''SampleDirective''),
      ownerName =
        (\<lambda>own. if own = 6 then Some ''LazyModule''
                else if own = 7 then Some ''R3Injector''
                else if own = 8 then Some ''NullInjector'' else None),
      getDirectiveId = (\<lambda>d. None),
      randomUUID = (\<lambda>n. replicate (Suc n) CHR ''u'')\<rparr>"

definition exampleState :: SerializerState where
  "exampleState =
     \<lparr>injectorMap = [99 \<mapsto> ''stale''], containerInjectorIdToInstance = Map.empty,
      uuidsDrawn = 0\<rparr>"

definition exampleForest :: "IndexedNode list" where
  "exampleForest =
     [IndexedNode [0] ''app-todo'' (Some (''TodoComponent'', False, 22))
        [(''TooltipDirective'', 20), (''SampleDirective'', 21)]
        [IndexedNode [0, 0] ''#comment'' None [] [] (Some 11)]
        (Some 10)]"

section \<open>Properties of \<open>equalNode\<close>\<close>

lemma everyIdx_nth_iff:
  "everyIdx f xs \<longleftrightarrow> (\<forall>k < length xs. f (xs ! k) k)"
  by (auto simp: everyIdx_def list_all_iff in_set_enumerate_eq)

lemma everyIdx_eq_iff:
  assumes "length xs = length ys"
  shows "everyIdx (\<lambda>i idx. ys ! idx = i) xs \<longleftrightarrow> xs = ys"
  using assms by (auto simp: everyIdx_nth_iff list_eq_iff_nth_eq)

lemma equalNode_iff:
  "equalNode c a b \<longleftrightarrow>
     idI a = idI b \<or>
     (c \<and> typeI a = ''Element'' \<and> typeI b = ''Element'' \<and> ownerI a = ownerI b \<and>
      length (nodeI a) = length (nodeI b) \<and> tl (nodeI a) = tl (nodeI b))"
  by (auto simp: equalNode_def Let_def everyIdx_eq_iff)


lemma equalNode_sym: "equalNode c a b = equalNode c b a"
  by (auto simp: equalNode_iff)

lemma tl_eq_iff_nth:
  assumes "length xs = length ys"
  shows "tl xs = tl ys \<longleftrightarrow> (\<forall>k. 0 < k \<and> k < length xs \<longrightarrow> xs ! k = ys ! k)"
proof (cases xs)
  case Nil
  with assms show ?thesis by simp
next
  case (Cons x xs')
  with assms obtain y ys' where ys: "ys = y # ys'" "length xs' = length ys'"
    by (cases ys) auto
  have "(\<forall>k. 0 < k \<and> k < Suc (length xs') \<longrightarrow> (x # xs') ! k = (y # ys') ! k) \<longleftrightarrow>
        (\<forall>k < length xs'. xs' ! k = ys' ! k)"
  proof
    assume h: "\<forall>k. 0 < k \<and> k < Suc (length xs') \<longrightarrow> (x # xs') ! k = (y # ys') ! k"
    show "\<forall>k < length xs'. xs' ! k = ys' ! k"
    proof (intro allI impI)
      fix k assume "k < length xs'"
      with h[rule_format, of "Suc k"] show "xs' ! k = ys' ! k" by simp
    qed
  next
    assume h: "\<forall>k < length xs'. xs' ! k = ys' ! k"
    show "\<forall>k. 0 < k \<and> k < Suc (length xs') \<longrightarrow> (x # xs') ! k = (y # ys') ! k"
      using h by (auto simp: nth_Cons split: nat.splits)
  qed
  moreover have "xs' = ys' \<longleftrightarrow> (\<forall>k < length xs'. xs' ! k = ys' ! k)"
    using ys(2) by (simp add: list_eq_iff_nth_eq)
  ultimately have "xs' = ys' \<longleftrightarrow>
      (\<forall>k. 0 < k \<and> k < Suc (length xs') \<longrightarrow> (x # xs') ! k = (y # ys') ! k)"
    by simp
  then show ?thesis unfolding Cons ys(1) by simp
qed

text \<open>
  The \<open>node\<close> of a record that is not of type \<open>Element\<close> is never read: the type test
  comes first in the guard.
\<close>

lemma equalNode_node_irrelevant:
  "typeI a \<noteq> ''Element'' \<Longrightarrow> equalNode c (a\<lparr>nodeI := n\<rparr>) b = equalNode c a b"
  "typeI b \<noteq> ''Element'' \<Longrightarrow> equalNode c a (b\<lparr>nodeI := n\<rparr>) = equalNode c a b"
  by (simp_all add: equalNode_iff)

text \<open>
  What \<open>equalNode\<close> computes, in terms of the nodes attached to the two records: true
  exactly when the ids match, or the collapse flag is set, both records are of type
  \<open>Element\<close>, their owner labels are equal, the resolution paths of their attached nodes
  have the same length and the ids at every position after the first agree. Two records
  that are not of type \<open>Element\<close> are equal exactly when their ids match.
\<close>

lemma equalNode_on_attached_nodes:
  "(equalNode collapse a b \<longleftrightarrow>
      idI a = idI b \<or>
      (collapse \<and> typeI a = ''Element'' \<and> typeI b = ''Element'' \<and> ownerI a = ownerI b \<and>
       length (nodeI a) = length (nodeI b) \<and>
       (\<forall>k. 0 < k \<and> k < length (nodeI a) \<longrightarrow> nodeI a ! k = nodeI b ! k))) \<and>
   (typeI a \<noteq> ''Element'' \<and> typeI b \<noteq> ''Element'' \<longrightarrow>
      (equalNode collapse a b \<longleftrightarrow> idI a = idI b))"
  using tl_eq_iff_nth[of "nodeI a" "nodeI b"] by (auto simp: equalNode_iff)

lemma equalNode_on_attached_nodes_example:
  "equalNode True (attachNode (map idI pathA) itemA) (attachNode (map idI pathB) itemB) \<and>
   \<not> equalNode True appModule platformInj"
  using equalNode_on_attached_nodes[of True "attachNode (map idI pathA) itemA"
          "attachNode (map idI pathB) itemB"]
        equalNode_on_attached_nodes[of True appModule platformInj]
  by (simp add: attachNode_def itemA_def itemB_def appModule_def platformInj_def pathA_def
        pathB_def nth_Cons split: nat.splits)

text \<open>
  Claim C10. In both collapse modes \<open>equalNode\<close> is reflexive and symmetric.
\<close>

theorem equalNode_reflexive_symmetric:
  "equalNode c a a \<and> equalNode c a b = equalNode c b a"
  by (auto simp: equalNode_iff)

theorem equalNode_reflexive_symmetric_witness:
  "equalNode True itemA itemA \<and> equalNode False itemA itemB = equalNode False itemB itemA"
  using equalNode_reflexive_symmetric[of True itemA itemA]
        equalNode_reflexive_symmetric[of False itemA itemB]
  by simp

section \<open>Properties of the insertion loops\<close>

subsection \<open>\<open>pathExists\<close> finds the first equal node\<close>

lemma pathExistsLoop_Cons:
  "pathExistsLoop c (n # ns) v (Suc i) = Suc (pathExistsLoop c ns v i)"
proof (induction c ns v i rule: pathExistsLoop.induct)
  case (1 c path v i)
  show ?case
  proof (cases "i < length path \<and> \<not> equalNode c (injector (path ! i)) v")
    case True
    then show ?thesis
      using "1.IH" by (subst pathExistsLoop.simps, subst (2) pathExistsLoop.simps) simp
  next
    case False
    then show ?thesis
      by (subst pathExistsLoop.simps, subst (2) pathExistsLoop.simps) auto
  qed
qed

lemma pathExists_Nil [simp]: "pathExists c [] v = None"
  by (simp add: pathExists_def pathExistsLoop.simps)

lemma pathExists_Cons [simp]:
  "pathExists c (n # ns) v =
     (if equalNode c (injector n) v then Some 0 else map_option Suc (pathExists c ns v))"
proof (cases "equalNode c (injector n) v")
  case True
  then show ?thesis by (simp add: pathExists_def pathExistsLoop.simps)
next
  case False
  then have "pathExistsLoop c (n # ns) v 0 = Suc (pathExistsLoop c ns v 0)"
    by (subst pathExistsLoop.simps) (simp add: pathExistsLoop_Cons)
  with False show ?thesis by (simp add: pathExists_def Let_def)
qed

lemma pathExists_None_iff:
  "pathExists c path v = None \<longleftrightarrow> (\<forall>n \<in> set path. \<not> equalNode c (injector n) v)"
  by (induction path) auto

lemma pathExists_Some:
  "pathExists c path v = Some i \<Longrightarrow>
     i < length path \<and> equalNode c (injector (path ! i)) v \<and>
     (\<forall>k < i. \<not> equalNode c (injector (path ! k)) v)"
proof (induction path arbitrary: i)
  case Nil
  then show ?case by simp
next
  case (Cons n ns)
  show ?case
  proof (cases "equalNode c (injector n) v")
    case True
    with Cons.prems show ?thesis by simp
  next
    case False
    with Cons.prems obtain j where j: "pathExists c ns v = Some j" "i = Suc j"
      by auto
    from Cons.IH[OF j(1)] False j(2) show ?thesis
      by (auto simp: nth_Cons split: nat.splits)
  qed
qed

subsection \<open>The insertion, level by level\<close>

lemma attachNode_id [simp]: "idI (attachNode node x) = idI x"
  by (simp add: attachNode_def)

lemma insertPath_Cons_Nil:
  "insertPath c node (x # rest) [] = [MergedNode (attachNode node x) (insertPath c node rest [])]"
  by (simp add: Let_def)

lemma insertPath_Cons_Cons:
  "insertPath c node (x # rest) (n # ns) =
     (if equalNode c (injector n) (attachNode node x)
      then MergedNode (injector n) (insertPath c node rest (childrenM n)) # ns
      else n # insertPath c node (x # rest) ns)"
  by (auto simp: Let_def split: option.splits)

declare insertPath.simps(2) [simp del]

lemma injectors_insertPath:
  "map injector (insertPath c node (x # rest) level) =
     map injector level @
     (if \<exists>n \<in> set level. equalNode c (injector n) (attachNode node x) then []
      else [attachNode node x])"
  by (induction level) (simp_all add: insertPath_Cons_Nil insertPath_Cons_Cons)

lemma insertPath_Nil_chain:
  "insertPath c node p [] = chainOf (map (attachNode node) p)"
  by (induction p) (simp_all add: insertPath_Cons_Nil)

subsection \<open>No duplicate siblings\<close>

lemma wellMergedNode_children:
  "wellMergedNode c n = wellMerged c (childrenM n)"
  by (cases n) (simp add: wellMerged_def)

lemma wellMerged_Nil [simp]: "wellMerged c []"
  by (simp add: wellMerged_def)

lemma wellMerged_insertPath:
  "wellMerged c level \<Longrightarrow> wellMerged c (insertPath c node p level)"
proof (induction p arbitrary: level)
  case Nil
  then show ?case by simp
next
  case (Cons x rest)
  note outer = Cons.IH
  let ?v = "attachNode node x"
  from Cons.prems show ?case
  proof (induction level)
    case Nil
    have "wellMerged c (insertPath c node rest [])" by (rule outer) simp
    then show ?case by (simp add: insertPath_Cons_Nil wellMerged_def wellMergedNode_children)
  next
    case (Cons n ns)
    show ?case
    proof (cases "equalNode c (injector n) ?v")
      case True
      have "wellMerged c (childrenM n)"
        using Cons.prems by (simp add: wellMerged_def wellMergedNode_children)
      then have "wellMerged c (insertPath c node rest (childrenM n))"
        by (rule outer)
      with Cons.prems True show ?thesis
        by (simp add: insertPath_Cons_Cons wellMerged_def wellMergedNode_children)
    next
      case False
      have wns: "wellMerged c ns" using Cons.prems by (simp add: wellMerged_def)
      have ih: "wellMerged c (insertPath c node (x # rest) ns)" by (rule Cons.IH[OF wns])
      have sub: "injector ` set (insertPath c node (x # rest) ns) \<subseteq> injector ` set ns \<union> {?v}"
      proof -
        have "set (map injector (insertPath c node (x # rest) ns)) \<subseteq> set (map injector ns) \<union> {?v}"
          by (subst injectors_insertPath) auto
        then show ?thesis by simp
      qed
      have "\<not> equalNode c ?v (injector n)" using False equalNode_sym by blast
      with False Cons.prems sub have
        "list_all (\<lambda>m. \<not> equalNode c (injector n) (injector m) \<and>
                     \<not> equalNode c (injector m) (injector n)) (insertPath c node (x # rest) ns)"
        unfolding list_all_iff wellMerged_def by (auto simp: list_all_iff)
      with ih False Cons.prems show ?thesis
        by (simp add: insertPath_Cons_Cons wellMerged_def)
    qed
  qed
qed

lemma wellMerged_foldl:
  "wellMerged c t \<Longrightarrow>
   wellMerged c (foldl (\<lambda>tree (node, path). insertPath c node path tree) t es)"
  by (induction es arbitrary: t) (auto simp: wellMerged_insertPath)

text \<open>
  Claim C3. After the merge of any list of entries, and after every single insertion (the
  merge of every initial segment of the list), no two nodes of the top level and no two
  children of any node are equal under the rule in force. So it is for every tree that
  \<open>injectorTreeReloaded\<close> builds.
\<close>

theorem merge_no_duplicate_siblings:
  "wellMerged c (mergeInjectorPaths c (take n injectorPaths)) \<and>
   (injectorTreeReloaded c forest = Some tree \<longrightarrow> wellMerged c tree)"
  by (auto simp: injectorTreeReloaded_def mergeInjectorPaths_def wellMerged_foldl
      split: list.splits)

theorem merge_no_duplicate_siblings_witness:
  "wellMerged True (mergePaths True [pathB, pathA]) \<and>
   wellMerged True (the (injectorTreeReloaded True [pageChildLast]))"
  using merge_no_duplicate_siblings[of True 2 "map pathEntry [pathB, pathA, pathX]"
          "[pageChildLast]" "the (injectorTreeReloaded True [pageChildLast])"]
  by (simp add: mergePaths_def injectorTreeReloaded_def)

text \<open>
  Claim C4. The merge of a single entry is the linear chain of its path: one node per
  level, the records in the order of the inserted path, root first, each \<open>Element\<close>
  record with its node attached. For a node's resolution path \<open>p\<close>, which lists the
  element first, the inserted path is \<open>p\<close> reversed.
\<close>

theorem merge_single_path_is_chain:
  "mergeInjectorPaths c [(node, path)] = chainOf (map (attachNode node) path) \<and>
   mergePaths c [p] = chainOf (map (attachNode (map idI p)) (rev p)) \<and>
   injectorTreeReloaded c [DevToolsNode (Some p) []] =
     Some (chainOf (map (attachNode (map idI p)) (rev p)))"
  by (simp add: injectorTreeReloaded_def mergePaths_def mergeInjectorPaths_def pathEntry_def
      insertPath_Nil_chain)

theorem merge_single_path_is_chain_witness:
  "mergePaths False [pathA] = [MergedNode appModule [MergedNode (itemA\<lparr>nodeI := [''a'', ''m'']\<rparr>) []]]"
  using merge_single_path_is_chain[of False "map idI pathA" "rev pathA" pathA]
  by (simp add: pathA_def itemA_def appModule_def attachNode_def)

subsection \<open>Insertion order\<close>

lemma idPaths_Nil [simp]: "idPaths [] = []"
  by (simp add: idPaths_def)




lemma equalNode_False [simp]: "equalNode False a b \<longleftrightarrow> idI a = idI b"
  by (simp add: equalNode_iff)














text \<open>
  The order of the siblings follows the order of insertion, in both modes.
\<close>

lemma merge_sibling_order_follows_insertion:
  "map (map (idI \<circ> injector) \<circ> childrenM) (mergePaths False [pathA, pathB]) = [[''a'', ''b'']]"
  "map (map (idI \<circ> injector) \<circ> childrenM) (mergePaths False [pathB, pathA]) = [[''b'', ''a'']]"
  by (simp_all add: mergePaths_def mergeInjectorPaths_def pathEntry_def
      insertPath_Cons_Nil insertPath_Cons_Cons pathA_def pathB_def
      itemA_def itemB_def appModule_def attachNode_def)







text \<open>
  Claim C1 states the rule on the two records' own resolution paths; the code does not
  compute it. \<open>equalNode\<close> takes the first entry of \<open>node.resolutionPath\<close> for the record's
  own element injector (it names it \<open>_aElementInjector\<close>), but the merger attaches to
  every \<open>Element\<close> record of a path the node whose path it is, so the record of an
  ancestor element carries its descendant's node. On the page with the childless item
  first, the record of item A enters the tree from its child's path, next to the record
  of item B. The two items have the same owner label, and their own resolution paths
  have the same length and the same ids after the element itself, so the claim makes them
  equal; \<open>equalNode\<close> compares the paths \<open>[b, m]\<close> and \<open>[x, a, m]\<close> and returns false, and
  the tree gets a second branch for the same component.
\<close>

theorem equalNode_compares_descendant_path:
  "injectorTreeReloaded True [pageChildLast] =
     Some [MergedNode appModule
             [MergedNode (itemB\<lparr>nodeI := [''b'', ''m'']\<rparr>) [],
              MergedNode (itemA\<lparr>nodeI := [''x'', ''a'', ''m'']\<rparr>)
                [MergedNode (childX\<lparr>nodeI := [''x'', ''a'', ''m'']\<rparr>) []]]] \<and>
   \<not> equalNode True (itemB\<lparr>nodeI := [''b'', ''m'']\<rparr>) (itemA\<lparr>nodeI := [''x'', ''a'', ''m'']\<rparr>) \<and>
   hd pathB = itemB \<and> hd pathA = itemA \<and>
   typeI itemB = ''Element'' \<and> typeI itemA = ''Element'' \<and> ownerI itemB = ownerI itemA \<and>
   length pathB = length pathA \<and> tl (map idI pathB) = tl (map idI pathA)"
  by (simp add: mergeInjectorPaths_def pathEntry_def
      injectorTreeReloaded_def pageChildLast_def
      insertPath_Cons_Nil insertPath_Cons_Cons pathA_def pathX_def pathB_def
      itemA_def itemB_def childX_def appModule_def attachNode_def equalNode_iff)




section \<open>Properties of \<open>queryDirectiveForest\<close>\<close>

lemma queryLoop_None_iff:
  "queryLoop position forest node = None \<longleftrightarrow>
     (position = [] \<and> node = None) \<or> \<not> namesNode position forest"
proof (induction position arbitrary: forest node)
  case Nil
  then show ?case by simp
next
  case (Cons i rest)
  show ?case
  proof (cases "arrayIndex forest i")
    case None
    then show ?thesis by (auto simp: arrayIndex_def split: if_splits)
  next
    case (Some n)
    then have n: "0 \<le> i" "i < int (length forest)" "n = forest ! nat i"
      by (auto simp: arrayIndex_def split: if_splits)
    show ?thesis
      using Some n Cons.IH[of "childrenN n" "Some n"] by simp
  qed
qed

text \<open>
  Claim C9. The lookup is a total function (it has no throwing branch), and it returns
  \<open>null\<close> when the position is empty or some index along it does not name an existing
  node; in every other case it returns a node.
\<close>

theorem query_not_found:
  "queryDirectiveForest position forest = None \<longleftrightarrow>
     position = [] \<or> \<not> namesNode position forest"
  by (auto simp: queryDirectiveForest_def queryLoop_None_iff)

theorem query_not_found_witness:
  "queryDirectiveForest [] exampleForest = None \<and>
   queryDirectiveForest [0, 3] exampleForest = None \<and>
   queryDirectiveForest [- 1] exampleForest = None \<and>
   queryDirectiveForest [0, 0] exampleForest \<noteq> None"
  using query_not_found[of "[]" exampleForest] query_not_found[of "[0, 3]" exampleForest]
        query_not_found[of "[- 1]" exampleForest] query_not_found[of "[0, 0]" exampleForest]
  by (simp add: exampleForest_def)

section \<open>Properties of the serializer\<close>

subsection \<open>Owner labels\<close>

lemma directiveNames_ownerSet:
  "directiveNames ng own = map (constructorName ng) (specOwnerSet ng own)"
  by (cases "getComponent ng own")
     (simp_all add: directiveNames_def specOwnerSet_def Let_def filter_map comp_def)

lemma joinWith_concat:
  "joinWith sep xs = (case xs of [] \<Rightarrow> [] | x # ys \<Rightarrow> x @ concat (map (\<lambda>y. sep @ y) ys))"
  by (induction sep xs rule: joinWith.induct) simp_all

lemma joinWith_commaSeparated: "joinWith '', '' xs = specCommaSeparated xs"
  by (cases xs) (simp_all add: joinWith_concat)

lemma serializeInjector_Element:
  "typeR r = ''Element'' \<Longrightarrow>
     ownerS (snd (serializeInjector ng st r)) = ownerLabel (directiveNames ng (ownerR r)) \<and>
     typeS (snd (serializeInjector ng st r)) = ''Element'' \<and>
     injectorMap (fst (serializeInjector ng st r)) (ownerR r) =
       Some (idS (snd (serializeInjector ng st r)))"
  by (auto simp: serializeInjector_def assignId_def Let_def split: prod.splits option.splits)

text \<open>
  Claim C6. For an \<open>Element\<close> record whose owner set is not empty, the serialized owner is
  the name of the first owner when there is no other, and otherwise that name followed by
  the comma-separated names of the others between brackets.
\<close>

theorem element_owner_label:
  assumes "typeR r = ''Element''"
    and "map (constructorName ng) (specOwnerSet ng (ownerR r)) = primary # others"
  shows "ownerS (snd (serializeInjector ng st r)) =
           Some (if others = [] then primary
                 else primary @ ''['' @ specCommaSeparated others @ '']'')"
  using assms serializeInjector_Element[of r ng st]
  by (simp add: directiveNames_ownerSet ownerLabel_def joinWith_commaSeparated)

theorem element_owner_label_witness:
  "ownerS (snd (serializeInjector exampleNg exampleState
                  \<lparr>typeR = ''Element'', ownerR = 10, instanceR = None\<rparr>)) =
     Some ''TodoComponent[TooltipDirective, SampleDirective]''"
  using element_owner_label[of "\<lparr>typeR = ''Element'', ownerR = 10, instanceR = None\<rparr>" exampleNg
          "''TodoComponent''" "[''TooltipDirective'', ''SampleDirective'']" exampleState]
  by (simp add: exampleNg_def specOwnerSet_def)

text \<open>
  Claim C8. For an \<open>Element\<close> record whose owner set is empty, the loop body returns a
  record (the model has no failing branch there), the record's owner is \<open>undefined\<close>, that
  is, it carries no label, and the record has its id like any other.
\<close>

theorem element_without_owners_serializes:
  assumes "typeR r = ''Element''" and "specOwnerSet ng (ownerR r) = []"
  shows "\<exists>st' out. serializeInjector ng st r = (st', out) \<and> ownerS out = None \<and>
           typeS out = ''Element'' \<and> injectorMap st' (ownerR r) = Some (idS out)"
proof -
  obtain st' out where s: "serializeInjector ng st r = (st', out)"
    by (cases "serializeInjector ng st r")
  with assms serializeInjector_Element[of r ng st] show ?thesis
    by (simp add: directiveNames_ownerSet ownerLabel_def)
qed

theorem element_without_owners_serializes_witness:
  "ownerS (snd (serializeInjector exampleNg exampleState
                  \<lparr>typeR = ''Element'', ownerR = 11, instanceR = None\<rparr>)) = None"
  using element_without_owners_serializes[of
          "\<lparr>typeR = ''Element'', ownerR = 11, instanceR = None\<rparr>" exampleNg exampleState]
  by (auto simp: exampleNg_def specOwnerSet_def)

subsection \<open>The pass visits the records in order\<close>

lemma serializePath_append:
  "serializePath ng st (xs @ ys) =
     (let (st1, o1) = serializePath ng st xs; (st2, o2) = serializePath ng st1 ys
      in (st2, o1 @ o2))"
  by (induction xs arbitrary: st) (auto simp: Let_def split: prod.splits)

lemma rawRecords_Nil [simp]: "rawRecords ng [] = []"
  by (simp add: rawRecords_def)

lemma rawRecords_Cons [simp]: "rawRecords ng (n # ns) = rawRecordsNode ng n @ rawRecords ng ns"
  by (simp add: rawRecords_def)

lemma serializedRecords_Nil [simp]: "serializedRecords [] = []"
  by (simp add: serializedRecords_def)

lemma serializedRecords_Cons [simp]:
  "serializedRecords (n # ns) = serializedRecordsNode n @ serializedRecords ns"
  by (simp add: serializedRecords_def)

lemma rawRecordsNode_eq:
  "rawRecordsNode ng (IndexedNode pos el cmpt dirs cs native) =
     rawRecords ng cs @ (case getInjectorResolutionPath ng native of None \<Rightarrow> [] | Some p \<Rightarrow> p)"
  by (simp add: rawRecords_def)

lemma serializedRecordsNode_eq:
  "serializedRecordsNode (SerializableNode pos el cmpt dirs cs rp) =
     serializedRecords cs @ (case rp of None \<Rightarrow> [] | Some p \<Rightarrow> p)"
  by (simp add: serializedRecords_def)

declare rawRecordsNode.simps [simp del] serializedRecordsNode.simps [simp del]

lemma prepare_flatten:
  "(\<forall>st' out1. prepareNode ng b st n = Some (st', out1) \<longrightarrow> b \<longrightarrow>
      serializePath ng st (rawRecordsNode ng n) = (st', serializedRecordsNode out1))"
  "(\<forall>st' outs. prepareForestForSerialization ng b st forest = Some (st', outs) \<longrightarrow> b \<longrightarrow>
      serializePath ng st (rawRecords ng forest) = (st', serializedRecords outs))"
proof (induction ng b st n and ng b st forest rule: prepareNode_prepareForestForSerialization.induct)
  case (1 ng b st pos el cmpt dirs cs native)
  show ?case
  proof (intro allI impI)
    fix st' out1
    assume run: "prepareNode ng b st (IndexedNode pos el cmpt dirs cs native) = Some (st', out1)"
      and b: b
    from run obtain st1 kids where kids: "prepareForestForSerialization ng b st cs = Some (st1, kids)"
      by (auto split: option.splits)
    from run kids b obtain path where path: "getInjectorResolutionPath ng native = Some path"
      by (auto simp: Let_def split: option.splits)
    obtain st2 outs where sp: "serializePath ng st1 path = (st2, outs)"
      by (cases "serializePath ng st1 path")
    from run kids b path sp have res: "st' = st2"
      "out1 = SerializableNode pos el
         (map_option (\<lambda>(name, isElement, inst). (name, isElement, getDirectiveId ng inst)) cmpt)
         (map (\<lambda>(name, inst). (name, getDirectiveId ng inst)) dirs) kids (Some outs)"
      by (auto simp: Let_def)
    from "1.IH" kids b have "serializePath ng st (rawRecords ng cs) = (st1, serializedRecords kids)"
      by blast
    then show "serializePath ng st (rawRecordsNode ng (IndexedNode pos el cmpt dirs cs native)) =
        (st', serializedRecordsNode out1)"
      by (simp add: rawRecordsNode_eq serializedRecordsNode_eq res path sp serializePath_append)
  qed
next
  case (2 ng b st)
  then show ?case by simp
next
  case (3 ng b st node roots)
  show ?case
  proof (intro allI impI)
    fix st' outs
    assume run: "prepareForestForSerialization ng b st (node # roots) = Some (st', outs)" and b: b
    from run obtain st1 out1 where n: "prepareNode ng b st node = Some (st1, out1)"
      by (auto split: option.splits)
    from run n obtain st2 outs2 where r: "prepareForestForSerialization ng b st1 roots = Some (st2, outs2)"
      by (auto split: option.splits)
    from run n r have res: "st' = st2" "outs = out1 # outs2" by auto
    from "3.IH"(1) n b have a: "serializePath ng st (rawRecordsNode ng node) = (st1, serializedRecordsNode out1)"
      by blast
    from "3.IH"(2)[OF n refl] r b have c: "serializePath ng st1 (rawRecords ng roots) = (st2, serializedRecords outs2)"
      by blast
    show "serializePath ng st (rawRecords ng (node # roots)) = (st', serializedRecords outs)"
      by (simp add: res a c serializePath_append)
  qed
qed

subsection \<open>The identity map\<close>

lemma idsInvariant_empty: "idsInvariant ng (st\<lparr>injectorMap := Map.empty\<rparr>)"
  by (simp add: idsInvariant_def)

lemma assignId_invariant:
  assumes "inj (randomUUID ng)" and "idsInvariant ng st" and "assignId ng st own = (st1, i)"
  shows "idsInvariant ng st1"
proof (cases "injectorMap st own")
  case None
  with assms(3) have st1: "st1 = st\<lparr>injectorMap := (injectorMap st)(own \<mapsto> randomUUID ng (uuidsDrawn st)),
      uuidsDrawn := Suc (uuidsDrawn st)\<rparr>"
    by (auto simp: assignId_def Let_def)
  have fresh: "injectorMap st o1 \<noteq> Some (randomUUID ng (uuidsDrawn st))" for o1
  proof
    assume "injectorMap st o1 = Some (randomUUID ng (uuidsDrawn st))"
    with assms(2) obtain n where "n < uuidsDrawn st" "randomUUID ng (uuidsDrawn st) = randomUUID ng n"
      unfolding idsInvariant_def by blast
    with assms(1) show False by (auto dest: injD)
  qed
  show ?thesis
    unfolding idsInvariant_def st1
  proof (intro conjI allI impI)
    fix own' i'
    assume "injectorMap (st\<lparr>injectorMap := (injectorMap st)(own \<mapsto> randomUUID ng (uuidsDrawn st)),
      uuidsDrawn := Suc (uuidsDrawn st)\<rparr>) own' = Some i'"
    then have "i' = randomUUID ng (uuidsDrawn st) \<or> injectorMap st own' = Some i'"
      by (auto split: if_splits)
    then show "\<exists>n<uuidsDrawn (st\<lparr>injectorMap := (injectorMap st)(own \<mapsto> randomUUID ng (uuidsDrawn st)),
      uuidsDrawn := Suc (uuidsDrawn st)\<rparr>). i' = randomUUID ng n"
      using assms(2) unfolding idsInvariant_def by (simp, metis less_Suc_eq)
  next
    fix o1 o2 i'
    assume a: "injectorMap (st\<lparr>injectorMap := (injectorMap st)(own \<mapsto> randomUUID ng (uuidsDrawn st)),
      uuidsDrawn := Suc (uuidsDrawn st)\<rparr>) o1 = Some i'"
      and b: "injectorMap (st\<lparr>injectorMap := (injectorMap st)(own \<mapsto> randomUUID ng (uuidsDrawn st)),
      uuidsDrawn := Suc (uuidsDrawn st)\<rparr>) o2 = Some i'"
    show "o1 = o2"
      using a b fresh assms(2) unfolding idsInvariant_def
      by (auto split: if_splits)
  qed
next
  case (Some a)
  with assms(3) have "st1 = st" by (simp add: assignId_def)
  with assms(2) show ?thesis by simp
qed

lemma assignId_effect:
  assumes "assignId ng st own = (st1, i)"
  shows "injectorMap st1 own = Some i"
    and "injectorMap st1 = (injectorMap st)(own \<mapsto> i)"
    and "containerInjectorIdToInstance st1 = containerInjectorIdToInstance st"
    and "injectorMap st own' = Some i' \<Longrightarrow> injectorMap st1 own' = Some i'"
  using assms by (auto simp: assignId_def Let_def split: option.splits)

lemma serializeInjector_ids:
  assumes "serializeInjector ng st r = (st1, out)"
  shows "assignId ng st (ownerR r) = (st1\<lparr>containerInjectorIdToInstance := containerInjectorIdToInstance st\<rparr>, idS out)"
    and "injectorMap st1 = (injectorMap st)(ownerR r \<mapsto> idS out)"
  using assms
  by (auto simp: serializeInjector_def Let_def assignId_def split: prod.splits if_splits option.splits)

lemma idsInvariant_table [simp]:
  "idsInvariant ng (st\<lparr>containerInjectorIdToInstance := t\<rparr>) = idsInvariant ng st"
  by (simp add: idsInvariant_def)

lemma serializeInjector_invariant:
  assumes "inj (randomUUID ng)" and "idsInvariant ng st" and "serializeInjector ng st r = (st1, out)"
  shows "idsInvariant ng st1"
  using assignId_invariant[OF assms(1,2) serializeInjector_ids(1)[OF assms(3)]] by simp

lemma serializePath_ids:
  assumes "inj (randomUUID ng)"
  shows "idsInvariant ng st \<Longrightarrow> serializePath ng st rs = (st', outs) \<Longrightarrow>
     idsInvariant ng st' \<and> length outs = length rs \<and>
     (\<forall>own i. injectorMap st own = Some i \<longrightarrow> injectorMap st' own = Some i) \<and>
     (\<forall>k < length rs. injectorMap st' (ownerR (rs ! k)) = Some (idS (outs ! k))) \<and>
     dom (injectorMap st') = dom (injectorMap st) \<union> ownerR ` set rs"
proof (induction rs arbitrary: st st' outs)
  case Nil
  then show ?case by simp
next
  case (Cons r rs)
  obtain st1 out where s1: "serializeInjector ng st r = (st1, out)"
    by (cases "serializeInjector ng st r")
  obtain st2 outs2 where s2: "serializePath ng st1 rs = (st2, outs2)"
    by (cases "serializePath ng st1 rs")
  from Cons.prems(2) s1 s2 have res: "st' = st2" "outs = out # outs2" by (auto simp: Let_def)
  have inv1: "idsInvariant ng st1"
    by (rule serializeInjector_invariant[OF assms Cons.prems(1) s1])
  note ih = Cons.IH[OF inv1 s2]
  have m1: "injectorMap st1 = (injectorMap st)(ownerR r \<mapsto> idS out)"
    by (rule serializeInjector_ids(2)[OF s1])
  have keep: "injectorMap st own = Some i \<Longrightarrow> injectorMap st1 own = Some i" for own i
    using assignId_effect(4)[OF serializeInjector_ids(1)[OF s1]] by simp
  have head: "injectorMap st2 (ownerR r) = Some (idS out)"
    using ih m1 by simp
  have nth: "\<forall>k < length (r # rs). injectorMap st2 (ownerR ((r # rs) ! k)) = Some (idS ((out # outs2) ! k))"
    using ih head by (auto simp: nth_Cons split: nat.splits)
  have dom: "dom (injectorMap st2) = dom (injectorMap st) \<union> ownerR ` set (r # rs)"
    using ih m1 by auto
  show ?case
    unfolding res using ih keep nth dom by auto
qed

lemma serializePath_id_eq_iff:
  assumes "inj (randomUUID ng)" "idsInvariant ng st" "serializePath ng st rs = (st', outs)"
    "i < length rs" "j < length rs"
  shows "(idS (outs ! i) = idS (outs ! j)) = (ownerR (rs ! i) = ownerR (rs ! j))"
proof -
  from serializePath_ids[OF assms(1,2,3)] have inv: "idsInvariant ng st'"
    and nth: "\<forall>k < length rs. injectorMap st' (ownerR (rs ! k)) = Some (idS (outs ! k))"
    by auto
  from nth assms(4,5) have a: "injectorMap st' (ownerR (rs ! i)) = Some (idS (outs ! i))"
    and b: "injectorMap st' (ownerR (rs ! j)) = Some (idS (outs ! j))" by auto
  show ?thesis
  proof
    assume "idS (outs ! i) = idS (outs ! j)"
    with a b inv show "ownerR (rs ! i) = ownerR (rs ! j)"
      unfolding idsInvariant_def by metis
  next
    assume "ownerR (rs ! i) = ownerR (rs ! j)"
    with a b show "idS (outs ! i) = idS (outs ! j)" by simp
  qed
qed

subsection \<open>The side table of container instances\<close>

lemma serializeInjector_container:
  assumes "typeR r \<noteq> ''Element''" and "serializeInjector ng st r = (st1, out)"
  shows "containerInjectorIdToInstance st1 = (containerInjectorIdToInstance st)(idS out \<mapsto> instanceR r)"
    and "instanceS out = None" and "ownerS out = ownerName ng (ownerR r)" and "typeS out = typeR r"
  using assms
  by (auto simp: serializeInjector_def assignId_def Let_def split: prod.splits option.splits)

lemma serializeInjector_element_table:
  assumes "typeR r = ''Element''" and "serializeInjector ng st r = (st1, out)"
  shows "containerInjectorIdToInstance st1 = containerInjectorIdToInstance st"
  using assms
  by (auto simp: serializeInjector_def assignId_def Let_def split: prod.splits option.splits)

lemma serializePath_length:
  "serializePath ng st rs = (st', outs) \<Longrightarrow> length outs = length rs"
  by (induction rs arbitrary: st st' outs) (auto simp: Let_def split: prod.splits)

lemma serializePath_table_cases:
  "serializePath ng st rs = (st', outs) \<Longrightarrow>
     containerInjectorIdToInstance st' i = containerInjectorIdToInstance st i \<or>
     (\<exists>j < length rs. typeR (rs ! j) \<noteq> ''Element'' \<and> idS (outs ! j) = i \<and>
        containerInjectorIdToInstance st' i = Some (instanceR (rs ! j)))"
proof (induction rs arbitrary: st st' outs)
  case Nil
  then show ?case by simp
next
  case (Cons r rs)
  obtain st1 out where s1: "serializeInjector ng st r = (st1, out)"
    by (cases "serializeInjector ng st r")
  obtain st2 outs2 where s2: "serializePath ng st1 rs = (st2, outs2)"
    by (cases "serializePath ng st1 rs")
  from Cons.prems s1 s2 have res: "st' = st2" "outs = out # outs2" by (auto simp: Let_def)
  from Cons.IH[OF s2] consider
      (same) "containerInjectorIdToInstance st2 i = containerInjectorIdToInstance st1 i"
    | (later) j where "j < length rs" "typeR (rs ! j) \<noteq> ''Element''" "idS (outs2 ! j) = i"
        "containerInjectorIdToInstance st2 i = Some (instanceR (rs ! j))"
    by blast
  then show ?case
  proof cases
    case same
    show ?thesis
    proof (cases "typeR r \<noteq> ''Element'' \<and> idS out = i")
      case True
      with same serializeInjector_container(1)[OF _ s1] have
        "containerInjectorIdToInstance st2 i = Some (instanceR r)" by simp
      with True have "0 < length (r # rs) \<and> typeR ((r # rs) ! 0) \<noteq> ''Element'' \<and>
          idS ((out # outs2) ! 0) = i \<and>
          containerInjectorIdToInstance st2 i = Some (instanceR ((r # rs) ! 0))" by simp
      then show ?thesis unfolding res by blast
    next
      case False
      then have "containerInjectorIdToInstance st1 i = containerInjectorIdToInstance st i"
        using serializeInjector_container(1)[OF _ s1] serializeInjector_element_table[OF _ s1]
        by (cases "typeR r = ''Element''") auto
      with same show ?thesis unfolding res by simp
    qed
  next
    case later
    then have "Suc j < length (r # rs) \<and> typeR ((r # rs) ! Suc j) \<noteq> ''Element'' \<and>
        idS ((out # outs2) ! Suc j) = i \<and>
        containerInjectorIdToInstance st2 i = Some (instanceR ((r # rs) ! Suc j))" by simp
    then show ?thesis unfolding res by blast
  qed
qed

lemma serializePath_table_last_writer:
  "serializePath ng st rs = (st', outs) \<Longrightarrow> k < length rs \<Longrightarrow> typeR (rs ! k) \<noteq> ''Element'' \<Longrightarrow>
     (\<forall>j. k < j \<and> j < length rs \<and> typeR (rs ! j) \<noteq> ''Element'' \<and> idS (outs ! j) = idS (outs ! k)
          \<longrightarrow> instanceR (rs ! j) = instanceR (rs ! k)) \<Longrightarrow>
     containerInjectorIdToInstance st' (idS (outs ! k)) = Some (instanceR (rs ! k))"
proof (induction rs arbitrary: st st' outs k)
  case Nil
  then show ?case by simp
next
  case (Cons r rs)
  obtain st1 out where s1: "serializeInjector ng st r = (st1, out)"
    by (cases "serializeInjector ng st r")
  obtain st2 outs2 where s2: "serializePath ng st1 rs = (st2, outs2)"
    by (cases "serializePath ng st1 rs")
  from Cons.prems(1) s1 s2 have res: "st' = st2" "outs = out # outs2" by (auto simp: Let_def)
  show ?case
  proof (cases k)
    case 0
    with Cons.prems(3) have t: "typeR r \<noteq> ''Element''" by simp
    have here: "containerInjectorIdToInstance st1 (idS out) = Some (instanceR r)"
      using serializeInjector_container(1)[OF t s1] by simp
    from serializePath_table_cases[OF s2, of "idS out"] consider
        "containerInjectorIdToInstance st2 (idS out) = containerInjectorIdToInstance st1 (idS out)"
      | j where "j < length rs" "typeR (rs ! j) \<noteq> ''Element''" "idS (outs2 ! j) = idS out"
          "containerInjectorIdToInstance st2 (idS out) = Some (instanceR (rs ! j))"
      by blast
    then show ?thesis
    proof cases
      case 1
      with here 0 show ?thesis unfolding res by simp
    next
      case (2 j)
      have "instanceR ((r # rs) ! Suc j) = instanceR ((r # rs) ! k)"
        using Cons.prems(4)[rule_format, of "Suc j"] 2 0 unfolding res by simp
      with 2 0 show ?thesis unfolding res by simp
    qed
  next
    case (Suc k')
    have "containerInjectorIdToInstance st2 (idS (outs2 ! k')) = Some (instanceR (rs ! k'))"
    proof (rule Cons.IH[OF s2])
      show "k' < length rs" using Cons.prems(2) Suc by simp
      show "typeR (rs ! k') \<noteq> ''Element''" using Cons.prems(3) Suc by simp
      show "\<forall>j. k' < j \<and> j < length rs \<and> typeR (rs ! j) \<noteq> ''Element'' \<and>
          idS (outs2 ! j) = idS (outs2 ! k') \<longrightarrow> instanceR (rs ! j) = instanceR (rs ! k')"
      proof (intro allI impI)
        fix j assume "k' < j \<and> j < length rs \<and> typeR (rs ! j) \<noteq> ''Element'' \<and>
          idS (outs2 ! j) = idS (outs2 ! k')"
        then show "instanceR (rs ! j) = instanceR (rs ! k')"
          using Cons.prems(4)[rule_format, of "Suc j"] Suc unfolding res by simp
      qed
    qed
    with Suc show ?thesis unfolding res by simp
  qed
qed


subsection \<open>The example pass\<close>

lemma example_raw:
  "rawRecords exampleNg exampleForest =
     [\<lparr>typeR = ''Element'', ownerR = 11, instanceR = None\<rparr>,
      \<lparr>typeR = ''Element'', ownerR = 10, instanceR = None\<rparr>,
      \<lparr>typeR = ''Module'', ownerR = 6, instanceR = Some 4\<rparr>,
      \<lparr>typeR = ''Injector'', ownerR = 7, instanceR = Some 1\<rparr>,
      \<lparr>typeR = ''Platform'', ownerR = 7, instanceR = Some 2\<rparr>,
      \<lparr>typeR = ''NullInjector'', ownerR = 8, instanceR = Some 3\<rparr>,
      \<lparr>typeR = ''Element'', ownerR = 10, instanceR = None\<rparr>,
      \<lparr>typeR = ''Module'', ownerR = 6, instanceR = Some 4\<rparr>,
      \<lparr>typeR = ''Injector'', ownerR = 7, instanceR = Some 1\<rparr>,
      \<lparr>typeR = ''Platform'', ownerR = 7, instanceR = Some 2\<rparr>,
      \<lparr>typeR = ''NullInjector'', ownerR = 8, instanceR = Some 3\<rparr>]"
  by (simp add: exampleForest_def exampleNg_def exampleContainers_def rawRecordsNode_eq)

lemma example_run:
  "getLatestInjectorGraphCallback exampleNg exampleState exampleForest \<noteq> None"
  "map idS (serializedRecords
      (snd (the (getLatestInjectorGraphCallback exampleNg exampleState exampleForest)))) =
     [''u'', ''uu'', ''uuu'', ''uuuu'', ''uuuu'', ''uuuuu'',
      ''uu'', ''uuu'', ''uuuu'', ''uuuu'', ''uuuuu'']"
  "containerInjectorIdToInstance
      (fst (the (getLatestInjectorGraphCallback exampleNg exampleState exampleForest))) ''uuuu'' =
     Some (Some 2)"
  by (simp_all add: getLatestInjectorGraphCallback_def exampleForest_def exampleNg_def
        exampleContainers_def exampleState_def serializeInjector_def assignId_def Let_def
        serializedRecordsNode_eq)

lemma example_ids:
  "idS (serializedRecords
      (snd (the (getLatestInjectorGraphCallback exampleNg exampleState exampleForest))) ! 3) = ''uuuu''"
  by (simp_all add: getLatestInjectorGraphCallback_def exampleForest_def exampleNg_def
        exampleContainers_def exampleState_def serializeInjector_def assignId_def Let_def
        serializedRecordsNode_eq)

lemma example_uuid_inj: "inj (randomUUID exampleNg)"
  by (simp add: exampleNg_def inj_def)

subsection \<open>Claims about the pass\<close>

text \<open>
  Claim C5. \<open>getLatestInjectorGraphCallback\<close> clears \<open>injectorMap\<close> before it serializes
  any node: whatever the map held before, the result is the same, and after the pass the
  map binds exactly the owners seen in the pass. Within the pass every record gets the id
  bound to its owner: two records get the same id exactly when they have the same owner,
  given that \<open>crypto.randomUUID\<close> never returns the same value twice.
\<close>

theorem identity_map_within_pass:
  assumes "inj (randomUUID ng)"
    and "getLatestInjectorGraphCallback ng st forest = Some (st', out)"
  shows "length (serializedRecords out) = length (rawRecords ng forest) \<and>
     (\<forall>i < length (rawRecords ng forest). \<forall>j < length (rawRecords ng forest).
        (idS (serializedRecords out ! i) = idS (serializedRecords out ! j)) =
        (ownerR (rawRecords ng forest ! i) = ownerR (rawRecords ng forest ! j))) \<and>
     (\<forall>i < length (rawRecords ng forest).
        injectorMap st' (ownerR (rawRecords ng forest ! i)) = Some (idS (serializedRecords out ! i))) \<and>
     dom (injectorMap st') = ownerR ` set (rawRecords ng forest) \<and>
     getLatestInjectorGraphCallback ng (st\<lparr>injectorMap := m\<rparr>) forest =
       getLatestInjectorGraphCallback ng st forest"
proof -
  let ?st0 = "st\<lparr>injectorMap := Map.empty\<rparr>"
  from assms(2) have run: "prepareForestForSerialization ng True ?st0 forest = Some (st', out)"
    by (simp add: getLatestInjectorGraphCallback_def)
  from prepare_flatten(2)[of ng True ?st0 forest] run
  have sp: "serializePath ng ?st0 (rawRecords ng forest) = (st', serializedRecords out)"
    by blast
  note ids = serializePath_ids[OF assms(1) idsInvariant_empty sp]
  have eq: "\<forall>i < length (rawRecords ng forest). \<forall>j < length (rawRecords ng forest).
        (idS (serializedRecords out ! i) = idS (serializedRecords out ! j)) =
        (ownerR (rawRecords ng forest ! i) = ownerR (rawRecords ng forest ! j))"
    using serializePath_id_eq_iff[OF assms(1) idsInvariant_empty sp] by blast
  have clear: "getLatestInjectorGraphCallback ng (st\<lparr>injectorMap := m\<rparr>) forest =
       getLatestInjectorGraphCallback ng st forest"
    by (simp add: getLatestInjectorGraphCallback_def)
  from ids have "dom (injectorMap st') = ownerR ` set (rawRecords ng forest)" by simp
  with ids eq clear show ?thesis by blast
qed

theorem identity_map_within_pass_witness:
  "idS (serializedRecords (snd (the (getLatestInjectorGraphCallback exampleNg exampleState exampleForest))) ! 3) =
   idS (serializedRecords (snd (the (getLatestInjectorGraphCallback exampleNg exampleState exampleForest))) ! 4) \<and>
   idS (serializedRecords (snd (the (getLatestInjectorGraphCallback exampleNg exampleState exampleForest))) ! 0) \<noteq>
   idS (serializedRecords (snd (the (getLatestInjectorGraphCallback exampleNg exampleState exampleForest))) ! 1) \<and>
   injectorMap (fst (the (getLatestInjectorGraphCallback exampleNg exampleState exampleForest))) 99 = None"
proof -
  define res where "res = the (getLatestInjectorGraphCallback exampleNg exampleState exampleForest)"
  have run: "getLatestInjectorGraphCallback exampleNg exampleState exampleForest =
      Some (fst res, snd res)"
    using example_run(1) by (simp add: res_def)
  note inst = identity_map_within_pass[OF example_uuid_inj run]
  from inst have eq: "\<forall>i < 11. \<forall>j < 11.
        (idS (serializedRecords (snd res) ! i) = idS (serializedRecords (snd res) ! j)) =
        (ownerR (rawRecords exampleNg exampleForest ! i) = ownerR (rawRecords exampleNg exampleForest ! j))"
    by (simp add: example_raw)
  from inst have dom: "dom (injectorMap (fst res)) = ownerR ` set (rawRecords exampleNg exampleForest)"
    by simp
  have a: "idS (serializedRecords (snd res) ! 3) = idS (serializedRecords (snd res) ! 4)"
    using eq[rule_format, of 3 4] by (simp add: example_raw)
  have b: "idS (serializedRecords (snd res) ! 0) \<noteq> idS (serializedRecords (snd res) ! 1)"
    using eq[rule_format, of 0 1] by (simp add: example_raw)
  have c: "injectorMap (fst res) 99 = None"
  proof -
    have "99 \<notin> dom (injectorMap (fst res))" unfolding dom by (simp add: example_raw)
    then show ?thesis by (simp add: domIff)
  qed
  from a b c show ?thesis by (simp add: res_def)
qed

text \<open>
  What the side table holds. Serializing a record that is not of type \<open>Element\<close> stores
  its instance under the record's id, changes no other entry, removes the instance from
  the record and replaces the owner by the owner's name. After a pass, the entry of an id
  is the instance of the last container record of the pass with that id.
\<close>

lemma side_table_step_and_pass:
  "(typeR r \<noteq> ''Element'' \<longrightarrow>
      containerInjectorIdToInstance (fst (serializeInjector ng st r))
        (idS (snd (serializeInjector ng st r))) = Some (instanceR r) \<and>
      (\<forall>i. i \<noteq> idS (snd (serializeInjector ng st r)) \<longrightarrow>
         containerInjectorIdToInstance (fst (serializeInjector ng st r)) i =
         containerInjectorIdToInstance st i) \<and>
      instanceS (snd (serializeInjector ng st r)) = None \<and>
      ownerS (snd (serializeInjector ng st r)) = ownerName ng (ownerR r)) \<and>
   (prepareForestForSerialization ng True st forest = Some (st', out) \<longrightarrow>
      (\<forall>k < length (rawRecords ng forest).
         typeR (rawRecords ng forest ! k) \<noteq> ''Element'' \<longrightarrow>
         (\<forall>j. k < j \<and> j < length (rawRecords ng forest) \<and>
              typeR (rawRecords ng forest ! j) \<noteq> ''Element'' \<and>
              idS (serializedRecords out ! j) = idS (serializedRecords out ! k) \<longrightarrow>
              instanceR (rawRecords ng forest ! j) = instanceR (rawRecords ng forest ! k)) \<longrightarrow>
         containerInjectorIdToInstance st' (idS (serializedRecords out ! k)) =
           Some (instanceR (rawRecords ng forest ! k))))"
proof (intro conjI impI allI)
  assume t: "typeR r \<noteq> ''Element''"
  obtain st1 out1 where s: "serializeInjector ng st r = (st1, out1)"
    by (cases "serializeInjector ng st r")
  note c = serializeInjector_container[OF t s]
  show "containerInjectorIdToInstance (fst (serializeInjector ng st r))
        (idS (snd (serializeInjector ng st r))) = Some (instanceR r)"
    using c(1) by (simp add: s)
  show "instanceS (snd (serializeInjector ng st r)) = None" using c(2) by (simp add: s)
  show "ownerS (snd (serializeInjector ng st r)) = ownerName ng (ownerR r)"
    using c(3) by (simp add: s)
  fix i assume "i \<noteq> idS (snd (serializeInjector ng st r))"
  then show "containerInjectorIdToInstance (fst (serializeInjector ng st r)) i =
         containerInjectorIdToInstance st i"
    using c(1) by (simp add: s)
next
  fix k
  assume run: "prepareForestForSerialization ng True st forest = Some (st', out)"
    and k: "k < length (rawRecords ng forest)" "typeR (rawRecords ng forest ! k) \<noteq> ''Element''"
    and later: "\<forall>j. k < j \<and> j < length (rawRecords ng forest) \<and>
              typeR (rawRecords ng forest ! j) \<noteq> ''Element'' \<and>
              idS (serializedRecords out ! j) = idS (serializedRecords out ! k) \<longrightarrow>
              instanceR (rawRecords ng forest ! j) = instanceR (rawRecords ng forest ! k)"
  from prepare_flatten(2)[of ng True st forest] run
  have sp: "serializePath ng st (rawRecords ng forest) = (st', serializedRecords out)"
    by blast
  show "containerInjectorIdToInstance st' (idS (serializedRecords out ! k)) =
           Some (instanceR (rawRecords ng forest ! k))"
    by (rule serializePath_table_last_writer[OF sp k later])
qed

text \<open>
  Claim C7 holds for the step and fails for the later query. \<open>getProviders\<close> reads
  \<open>containerInjectorIdToInstance.get(id)\<close> as the instance of the injector whose record
  has that id. Ids are bound to owners, and \<open>getInjectorResolutionPath\<close> gives the records
  of the platform injector and of an environment injector the owner
  \<open>injector.constructor\<close>. In the example pass the root environment injector's record
  (instance 1) and the platform injector's record (instance 2) have the same owner, the
  class \<open>R3Injector\<close>, hence the same id; the platform record is serialized later and
  overwrites the entry, so after the pass the id of the environment injector's record
  leads to the platform injector, not to the record's own instance.
\<close>

theorem later_container_overwrites_instance:
  "typeR (rawRecords exampleNg exampleForest ! 3) \<noteq> ''Element'' \<and>
   instanceR (rawRecords exampleNg exampleForest ! 3) = Some 1 \<and>
   getLatestInjectorGraphCallback exampleNg exampleState exampleForest \<noteq> None \<and>
   containerInjectorIdToInstance
     (fst (the (getLatestInjectorGraphCallback exampleNg exampleState exampleForest)))
     (idS (serializedRecords
             (snd (the (getLatestInjectorGraphCallback exampleNg exampleState exampleForest))) ! 3))
     = Some (Some 2)"
  by (simp add: example_run example_ids example_raw)

end
